theory Spec2Isabelle
  imports Complex_Main
begin

section \<open>The llama.cpp server supervisor of GlaDOS (src/glados/llama.py)\<close>

text \<open>
  Python exceptions are values: every function that can raise returns a sum whose left
  injection carries the exception. Only the exception classes that the modelled code
  can raise are listed.
\<close>

datatype exn =
    AttributeError
  | TypeError
  | ValueError
  | OSError
  | RequestException
  | ServerStartupError

subsection \<open>Configuration: \<open>LlamaServerConfig.from_yaml\<close>\<close>

text \<open>
  The document that \<open>yaml.safe_load\<close> returns: scalars, sequences and mappings. A
  mapping is a Python dict, kept as an association list that \<open>map_of\<close> reads; its keys
  are YAML values themselves (a YAML key need not be a string). Opening and parsing
  the file is left to the caller: \<open>from_yaml\<close> below starts from the parsed document.
\<close>

datatype yaml =
    YNull
  | YBool bool
  | YInt int
  | YFloat real
  | YStr string
  | YSeq "yaml list"
  | YMap "(yaml \<times> yaml) list"

text \<open>
  The dataclass. Python checks no field type when the dataclass is built, so every
  field holds whatever YAML value the mapping gave.
\<close>

record LlamaServerConfig =
  cfg_llama_cpp_repo_path :: yaml
  cfg_model_path :: yaml
  cfg_port :: yaml
  cfg_use_gpu :: yaml

text \<open>\<open>config.get(nested_key, {})\<close>: only a dict has \<open>get\<close>.\<close>

fun dict_get :: "yaml \<Rightarrow> string \<Rightarrow> exn + yaml" where
  "dict_get (YMap kvs) k =
     Inr (case map_of kvs (YStr k) of None \<Rightarrow> YMap [] | Some v \<Rightarrow> v)"
| "dict_get _ k = Inl AttributeError"

text \<open>The loop \<open>for nested_key in key_to_config: config = config.get(nested_key, {})\<close>.\<close>

fun descend :: "yaml \<Rightarrow> string list \<Rightarrow> exn + yaml" where
  "descend config [] = Inr config"
| "descend config (nested_key # ks) =
     (case dict_get config nested_key of
        Inl e \<Rightarrow> Inl e
      | Inr config' \<Rightarrow> descend config' ks)"

text \<open>Python truthiness, for \<open>if not config\<close>.\<close>

fun falsy :: "yaml \<Rightarrow> bool" where
  "falsy YNull = True"
| "falsy (YBool b) = (\<not> b)"
| "falsy (YInt n) = (n = 0)"
| "falsy (YFloat r) = (r = 0)"
| "falsy (YStr s) = (s = [])"
| "falsy (YSeq xs) = (xs = [])"
| "falsy (YMap kvs) = (kvs = [])"

definition field_names :: "yaml list" where
  "field_names =
     [YStr ''llama_cpp_repo_path'', YStr ''model_path'', YStr ''port'', YStr ''use_gpu'']"

text \<open>
  \<open>cls(**config)\<close>: the argument must be a mapping, its keys must be strings that name
  fields, and the two fields without a default must be there; otherwise Python raises
  TypeError. \<open>port\<close> and \<open>use_gpu\<close> default to 8080 and True.
\<close>

fun cls :: "yaml \<Rightarrow> exn + LlamaServerConfig" where
  "cls (YMap kvs) =
     (if \<not> list_all (\<lambda>(k, v). k \<in> set field_names) kvs then Inl TypeError
      else case map_of kvs (YStr ''llama_cpp_repo_path'') of
        None \<Rightarrow> Inl TypeError
      | Some repo \<Rightarrow>
          (case map_of kvs (YStr ''model_path'') of
             None \<Rightarrow> Inl TypeError
           | Some model \<Rightarrow>
               Inr \<lparr>cfg_llama_cpp_repo_path = repo,
                    cfg_model_path = model,
                    cfg_port = (case map_of kvs (YStr ''port'') of
                                  None \<Rightarrow> YInt 8080 | Some p \<Rightarrow> p),
                    cfg_use_gpu = (case map_of kvs (YStr ''use_gpu'') of
                                     None \<Rightarrow> YBool True | Some g \<Rightarrow> g)\<rparr>))"
| "cls _ = Inl TypeError"

text \<open>
  \<open>from_yaml\<close> on the parsed document \<open>data\<close>. \<open>key_to_config\<close> may be None, which
  \<open>key_to_config or []\<close> turns into the empty sequence; the default is
  \<open>("LlamaServer",)\<close>. The result is \<open>Inr None\<close> for Python's \<open>return None\<close>.
\<close>

definition from_yaml :: "yaml \<Rightarrow> string list option \<Rightarrow> exn + LlamaServerConfig option" where
  "from_yaml data key_to_config =
     (let keys = (case key_to_config of None \<Rightarrow> [] | Some ks \<Rightarrow> ks) in
      case descend data keys of
        Inl e \<Rightarrow> Inl e
      | Inr config \<Rightarrow>
          if falsy config then Inr None
          else (case cls config of Inl e \<Rightarrow> Inl e | Inr c \<Rightarrow> Inr (Some c)))"

definition default_key_to_config :: "string list option" where
  "default_key_to_config = Some [''LlamaServer'']"

subsection \<open>The handle: \<open>LlamaServer\<close>\<close>

text \<open>
  \<open>process\<close> is \<open>subprocess.Popen | None\<close>; a Popen object is known by the pid of its
  child. Paths are kept as the strings handed to the operating system.
\<close>

record LlamaServer =
  llama_cpp_repo_path :: string
  model_path :: string
  port :: int
  process :: "nat option"
  use_gpu :: bool
  command :: "string list"

definition LlamaServer_init :: "string \<Rightarrow> string \<Rightarrow> int \<Rightarrow> bool \<Rightarrow> LlamaServer" where
  "LlamaServer_init repo model p gpu =
     \<lparr>llama_cpp_repo_path = repo,
      model_path = model,
      port = p,
      process = None,
      use_gpu = gpu,
      command = ([repo, ''-m''] @ [model]) @ (if gpu then [''-ngl'', ''1000''] else [])\<rparr>"

subsection \<open>The operating system: child processes\<close>

text \<open>
  What \<open>subprocess.Popen\<close>, \<open>terminate\<close> and \<open>wait\<close> act on: the children that are
  alive, the pid the next child gets, and which command lines can be launched at all
  (Popen raises OSError for the others). A child is taken to exit on the termination
  signal, so that \<open>wait\<close> returns.
\<close>

record os_state =
  live :: "nat list"
  next_pid :: nat
  spawnable :: "string list \<Rightarrow> bool"

definition Popen :: "string list \<Rightarrow> os_state \<Rightarrow> exn + nat \<times> os_state" where
  "Popen cmd os =
     (if spawnable os cmd
      then Inr (next_pid os, os\<lparr>live := next_pid os # live os, next_pid := Suc (next_pid os)\<rparr>)
      else Inl OSError)"

definition terminate_and_wait :: "nat \<Rightarrow> os_state \<Rightarrow> os_state" where
  "terminate_and_wait pid os = os\<lparr>live := removeAll pid (live os)\<rparr>"

text \<open>
  \<open>stop\<close>: \<open>self.process.terminate()\<close> is an attribute access on \<open>self.process\<close>, which
  raises AttributeError when it is None.
\<close>

definition stop :: "LlamaServer \<Rightarrow> os_state \<Rightarrow> exn + LlamaServer \<times> os_state" where
  "stop h os =
     (case process h of
        None \<Rightarrow> Inl AttributeError
      | Some pid \<Rightarrow> Inr (h\<lparr>process := None\<rparr>, terminate_and_wait pid os))"

subsection \<open>The readiness check: \<open>is_running\<close>\<close>

text \<open>
  One \<open>requests.get(self.health_check_url)\<close> either returns a response with a status
  code, raises \<open>requests.exceptions.ConnectionError\<close>, or raises something else, which
  \<open>is_running\<close> does not catch.
\<close>

datatype outcome =
    Response int
  | ConnectionError
  | Other_exception

text \<open>
  The health endpoint as \<open>is_running\<close> sees it during one call: the outcome of a request
  depends on how many requests the call has made before and on how many seconds the
  call has slept so far.
\<close>

type_synonym endpoint = "nat \<Rightarrow> real \<Rightarrow> outcome"

text \<open>What one call of \<open>is_running\<close> does to the outside: its requests and its sleeps, in order.\<close>

record poll_log =
  requests :: "outcome list"
  sleeps :: "real list"

definition empty_log :: poll_log where
  "empty_log = \<lparr>requests = [], sleeps = []\<rparr>"

definition elapsed :: "poll_log \<Rightarrow> real" where
  "elapsed lg = sum_list (sleeps lg)"

text \<open>\<open>time.sleep(d)\<close> raises ValueError for a negative \<open>d\<close>.\<close>

definition sleep :: "real \<Rightarrow> poll_log \<Rightarrow> exn + poll_log" where
  "sleep d lg = (if d < 0 then Inl ValueError else Inr (lg\<lparr>sleeps := sleeps lg @ [d]\<rparr>))"

definition model_loading_log_time :: int where
  "model_loading_log_time = 1"

text \<open>
  \<open>max_wait_time_for_model_loading\<close> is a Python float: a finite number, an infinity or
  NaN. \<open>model_loading_time\<close> is an int, and \<open>int > float\<close> compares the exact values:
  nothing exceeds \<open>inf\<close>, everything exceeds \<open>-inf\<close>, and a comparison with NaN is
  False.
\<close>

datatype pyfloat =
    Finite real
  | PosInf
  | NegInf
  | NaN

fun int_gt_float :: "int \<Rightarrow> pyfloat \<Rightarrow> bool" where
  "int_gt_float k (Finite r) = (of_int k > r)"
| "int_gt_float k PosInf = False"
| "int_gt_float k NegInf = True"
| "int_gt_float k NaN = False"

text \<open>
  One pass through the body of \<open>while True\<close>, from the local variables \<open>cur_attempt\<close> and
  \<open>model_loading_time\<close>: it returns from \<open>is_running\<close> (\<open>Done\<close>) or goes round again
  (\<open>Again\<close>) with the new values of the two variables. The \<open>continue\<close> of the 503 branch
  skips the \<open>time.sleep(sleep_time_between_attempts)\<close> at the end of the body.
\<close>

datatype step =
    Done "exn + bool" poll_log
  | Again int int poll_log

definition poll_iteration ::
  "endpoint \<Rightarrow> int \<Rightarrow> real \<Rightarrow> pyfloat \<Rightarrow> int \<Rightarrow> int \<Rightarrow> poll_log \<Rightarrow> step" where
  "poll_iteration ep max_connection_attempts sleep_time_between_attempts
       max_wait_time_for_model_loading cur_attempt model_loading_time lg =
     (let response = ep (length (requests lg)) (elapsed lg);
          lg1 = lg\<lparr>requests := requests lg @ [response]\<rparr>
      in case response of
        Response status_code \<Rightarrow>
          if status_code = 503 then
            if int_gt_float model_loading_time max_wait_time_for_model_loading
            then Done (Inr False) lg1
            else (case sleep (of_int model_loading_log_time) lg1 of
                    Inl e \<Rightarrow> Done (Inl e) lg1
                  | Inr lg2 \<Rightarrow>
                      Again cur_attempt (model_loading_time + model_loading_log_time) lg2)
          else if status_code = 200 then Done (Inr True) lg1
          else Done (Inr False) lg1
      | ConnectionError \<Rightarrow>
          if cur_attempt + 1 > max_connection_attempts then Done (Inr False) lg1
          else (case sleep sleep_time_between_attempts lg1 of
                  Inl e \<Rightarrow> Done (Inl e) lg1
                | Inr lg2 \<Rightarrow> Again (cur_attempt + 1) model_loading_time lg2)
      | Other_exception \<Rightarrow> Done (Inl RequestException) lg1)"

text \<open>
  The loop \<open>while True\<close>. It need not return (with \<open>inf\<close> or NaN as the bound and an
  endpoint that keeps answering 503 it never does), so its value is an option: None
  when the loop runs forever.
\<close>

partial_function (option) is_running_loop ::
  "endpoint \<Rightarrow> int \<Rightarrow> real \<Rightarrow> pyfloat \<Rightarrow> int \<Rightarrow> int \<Rightarrow> poll_log
     \<Rightarrow> ((exn + bool) \<times> poll_log) option" where
  "is_running_loop ep max_connection_attempts sleep_time_between_attempts
       max_wait_time_for_model_loading cur_attempt model_loading_time lg =
     (case poll_iteration ep max_connection_attempts sleep_time_between_attempts
             max_wait_time_for_model_loading cur_attempt model_loading_time lg of
        Done r lg' \<Rightarrow> Some (r, lg')
      | Again cur_attempt' model_loading_time' lg' \<Rightarrow>
          is_running_loop ep max_connection_attempts sleep_time_between_attempts
            max_wait_time_for_model_loading cur_attempt' model_loading_time' lg')"

definition is_running ::
  "endpoint \<Rightarrow> LlamaServer \<Rightarrow> int \<Rightarrow> real \<Rightarrow> pyfloat
     \<Rightarrow> ((exn + bool) \<times> poll_log) option" where
  "is_running ep h max_connection_attempts sleep_time_between_attempts
       max_wait_time_for_model_loading =
     (if process h = None then Some (Inr False, empty_log)
      else is_running_loop ep max_connection_attempts sleep_time_between_attempts
             max_wait_time_for_model_loading 0 0 empty_log)"

subsection \<open>\<open>start\<close>\<close>

text \<open>
  \<open>start\<close> returns what it raised (or nothing), the handle and the operating system as
  it leaves them, and the log of its readiness check, which runs with the default
  bounds 10, 0.01 and 60.0. An exception out of \<open>Popen\<close> or \<open>is_running\<close> passes
  through \<open>start\<close> as it is, and \<open>start\<close> does not return if \<open>is_running\<close> does not.
\<close>

definition start ::
  "endpoint \<Rightarrow> LlamaServer \<Rightarrow> os_state
     \<Rightarrow> ((exn + unit) \<times> LlamaServer \<times> os_state \<times> poll_log) option" where
  "start ep h os =
     (case Popen (command h) os of
        Inl e \<Rightarrow> Some (Inl e, h, os, empty_log)
      | Inr (pid, os1) \<Rightarrow>
          (let h1 = h\<lparr>process := Some pid\<rparr> in
           case is_running ep h1 10 (1 / 100) (Finite 60) of
             None \<Rightarrow> None
           | Some (Inl e, lg) \<Rightarrow> Some (Inl e, h1, os1, lg)
           | Some (Inr True, lg) \<Rightarrow> Some (Inr (), h1, os1, lg)
           | Some (Inr False, lg) \<Rightarrow>
               (case stop h1 os1 of
                  Inl e \<Rightarrow> Some (Inl e, h1, os1, lg)
                | Inr (h2, os2) \<Rightarrow> Some (Inl ServerStartupError, h2, os2, lg))))"

subsection \<open>Endpoints, handles and counters used in the statements\<close>

text \<open>An endpoint that answers 503 while fewer than \<open>n\<close> seconds have passed, and 200 from then on.\<close>

definition loading_then_ready :: "nat \<Rightarrow> endpoint" where
  "loading_then_ready n = (\<lambda>i t. if t < real n then Response 503 else Response 200)"

definition always_refused :: endpoint where
  "always_refused = (\<lambda>i t. ConnectionError)"

definition always_loading :: endpoint where
  "always_loading = (\<lambda>i t. Response 503)"

definition always_broken :: endpoint where
  "always_broken = (\<lambda>i t. Response 500)"

text \<open>Two refused connections, then 503 twice, then 200.\<close>

definition slow_start :: endpoint where
  "slow_start = (\<lambda>i t. if i < 2 then ConnectionError else if i < 4 then Response 503 else Response 200)"

definition example_handle :: LlamaServer where
  "example_handle = LlamaServer_init ''/opt/llama.cpp/server'' ''/models/model.gguf'' 8080 True"

definition example_os :: os_state where
  "example_os = \<lparr>live = [], next_pid = 1, spawnable = (\<lambda>cmd. True)\<rparr>"

definition example_document :: yaml where
  "example_document =
     YMap [(YStr ''LlamaServer'',
            YMap [(YStr ''llama_cpp_repo_path'', YStr ''/opt/llama.cpp''),
                  (YStr ''model_path'', YStr ''/models/model.gguf'')])]"

text \<open>A section whose required fields hold an integer and a sequence instead of strings.\<close>

definition mistyped_document :: yaml where
  "mistyped_document =
     YMap [(YStr ''LlamaServer'',
            YMap [(YStr ''llama_cpp_repo_path'', YInt 5),
                  (YStr ''model_path'', YSeq [])])]"

text \<open>A section without \<open>model_path\<close>.\<close>

definition incomplete_document :: yaml where
  "incomplete_document =
     YMap [(YStr ''LlamaServer'',
            YMap [(YStr ''llama_cpp_repo_path'', YStr ''/opt/llama.cpp''),
                  (YStr ''port'', YInt 9000)])]"

text \<open>The requests of a log, by outcome.\<close>

definition refused_polls :: "poll_log \<Rightarrow> nat" where
  "refused_polls lg = length (filter (\<lambda>out. out = ConnectionError) (requests lg))"

definition loading_polls :: "poll_log \<Rightarrow> nat" where
  "loading_polls lg = length (filter (\<lambda>out. out = Response 503) (requests lg))"

definition final_polls :: "poll_log \<Rightarrow> nat" where
  "final_polls lg =
     length (filter (\<lambda>out. out \<noteq> ConnectionError \<and> out \<noteq> Response 503) (requests lg))"

section \<open>Properties\<close>

subsection \<open>One pass of the polling loop, by outcome\<close>

lemma poll_iteration_503:
  assumes "ep (length (requests lg)) (elapsed lg) = Response 503"
  shows "poll_iteration ep a s m cur mlt lg =
           (if int_gt_float mlt m
            then Done (Inr False) (lg\<lparr>requests := requests lg @ [Response 503]\<rparr>)
            else Again cur (mlt + 1)
                   (lg\<lparr>requests := requests lg @ [Response 503], sleeps := sleeps lg @ [1]\<rparr>))"
  using assms by (simp add: poll_iteration_def Let_def sleep_def model_loading_log_time_def)

lemma poll_iteration_200:
  assumes "ep (length (requests lg)) (elapsed lg) = Response 200"
  shows "poll_iteration ep a s m cur mlt lg =
           Done (Inr True) (lg\<lparr>requests := requests lg @ [Response 200]\<rparr>)"
  using assms by (simp add: poll_iteration_def Let_def)

lemma poll_iteration_other_status:
  assumes "ep (length (requests lg)) (elapsed lg) = Response c" and "c \<noteq> 503" and "c \<noteq> 200"
  shows "poll_iteration ep a s m cur mlt lg =
           Done (Inr False) (lg\<lparr>requests := requests lg @ [Response c]\<rparr>)"
  using assms by (simp add: poll_iteration_def Let_def)

lemma poll_iteration_refused:
  assumes "ep (length (requests lg)) (elapsed lg) = ConnectionError"
  shows "poll_iteration ep a s m cur mlt lg =
           (if cur + 1 > a
            then Done (Inr False) (lg\<lparr>requests := requests lg @ [ConnectionError]\<rparr>)
            else if s < 0
            then Done (Inl ValueError) (lg\<lparr>requests := requests lg @ [ConnectionError]\<rparr>)
            else Again (cur + 1) mlt
                   (lg\<lparr>requests := requests lg @ [ConnectionError], sleeps := sleeps lg @ [s]\<rparr>))"
  using assms by (simp add: poll_iteration_def Let_def sleep_def)

lemma poll_iteration_other_exception:
  assumes "ep (length (requests lg)) (elapsed lg) = Other_exception"
  shows "poll_iteration ep a s m cur mlt lg =
           Done (Inl RequestException) (lg\<lparr>requests := requests lg @ [Other_exception]\<rparr>)"
  using assms by (simp add: poll_iteration_def Let_def)

text \<open>Every pass makes exactly one request; what else it does depends on the outcome.\<close>

lemma poll_iteration_Again:
  assumes "poll_iteration ep a s m cur mlt lg = Again cur' mlt' lg'"
  shows "(ep (length (requests lg)) (elapsed lg) = ConnectionError \<and> cur' = cur + 1 \<and> cur' \<le> a \<and>
          mlt' = mlt \<and> 0 \<le> s \<and>
          lg' = lg\<lparr>requests := requests lg @ [ConnectionError], sleeps := sleeps lg @ [s]\<rparr>) \<or>
         (ep (length (requests lg)) (elapsed lg) = Response 503 \<and> cur' = cur \<and>
          mlt' = mlt + 1 \<and> \<not> int_gt_float mlt m \<and>
          lg' = lg\<lparr>requests := requests lg @ [Response 503], sleeps := sleeps lg @ [1]\<rparr>)"
proof (cases "ep (length (requests lg)) (elapsed lg)")
  case (Response c)
  show ?thesis
  proof (cases "c = 503")
    case True
    with Response assms show ?thesis
      by (simp add: poll_iteration_503 split: if_splits)
  next
    case False
    with Response assms show ?thesis
      by (cases "c = 200") (simp_all add: poll_iteration_200 poll_iteration_other_status)
  qed
next
  case ConnectionError
  with assms show ?thesis
    by (simp add: poll_iteration_refused split: if_splits)
next
  case Other_exception
  with assms show ?thesis
    by (simp add: poll_iteration_other_exception)
qed

lemma poll_iteration_Done:
  assumes "poll_iteration ep a s m cur mlt lg = Done r lg'"
  shows "lg' = lg\<lparr>requests := requests lg @ [ep (length (requests lg)) (elapsed lg)]\<rparr>"
proof (cases "ep (length (requests lg)) (elapsed lg)")
  case (Response c)
  show ?thesis
  proof (cases "c = 503")
    case True
    with Response assms show ?thesis
      by (auto simp: poll_iteration_503 split: if_splits)
  next
    case False
    with Response assms show ?thesis
      by (cases "c = 200") (auto simp: poll_iteration_200 poll_iteration_other_status)
  qed
next
  case ConnectionError
  with assms show ?thesis
    by (auto simp: poll_iteration_refused split: if_splits)
next
  case Other_exception
  with assms show ?thesis
    by (auto simp: poll_iteration_other_exception)
qed


subsection \<open>The polling loop as a whole\<close>

lemma elapsed_after_sleep:
  "elapsed (lg\<lparr>requests := rs, sleeps := sleeps lg @ [d]\<rparr>) = elapsed lg + d"
  by (simp add: elapsed_def)

lemma loop_Done:
  assumes "poll_iteration ep a s m cur mlt lg = Done r lg'"
  shows "is_running_loop ep a s m cur mlt lg = Some (r, lg')"
  using assms by (subst is_running_loop.simps) simp

lemma loop_Again:
  assumes "poll_iteration ep a s m cur mlt lg = Again cur' mlt' lg'"
  shows "is_running_loop ep a s m cur mlt lg = is_running_loop ep a s m cur' mlt' lg'"
  using assms by (subst is_running_loop.simps) simp

lemma is_running_broken:
  "is_running always_broken (h\<lparr>process := Some pid\<rparr>) a s m =
     Some (Inr False, \<lparr>requests = [Response 500], sleeps = []\<rparr>)"
proof -
  have "poll_iteration always_broken a s m 0 0 empty_log =
          Done (Inr False) (empty_log\<lparr>requests := requests empty_log @ [Response 500]\<rparr>)"
    by (rule poll_iteration_other_status) (simp_all add: always_broken_def)
  from loop_Done [OF this] show ?thesis
    by (simp add: is_running_def empty_log_def)
qed

text \<open>An endpoint that answers 503 for \<open>n\<close> seconds: the loop from second \<open>j\<close> on.\<close>

lemma loading_loop_ready:
  assumes "real n - 1 \<le> m"
  shows "elapsed lg = real j \<Longrightarrow> j \<le> n \<Longrightarrow>
         is_running_loop (loading_then_ready n) a s (Finite m) cur (int j) lg =
           Some (Inr True,
                 lg\<lparr>requests := requests lg @ replicate (n - j) (Response 503) @ [Response 200],
                    sleeps := sleeps lg @ replicate (n - j) 1\<rparr>)"
proof (induction "n - j" arbitrary: j lg)
  case 0
  then have "loading_then_ready n (length (requests lg)) (elapsed lg) = Response 200"
    by (simp add: loading_then_ready_def)
  then have "poll_iteration (loading_then_ready n) a s (Finite m) cur (int j) lg =
               Done (Inr True) (lg\<lparr>requests := requests lg @ [Response 200]\<rparr>)"
    by (rule poll_iteration_200)
  from loop_Done [OF this] 0 show ?case
    by simp
next
  case (Suc d)
  let ?lg = "lg\<lparr>requests := requests lg @ [Response 503], sleeps := sleeps lg @ [1]\<rparr>"
  from Suc have j: "j < n" by simp
  with Suc have "loading_then_ready n (length (requests lg)) (elapsed lg) = Response 503"
    by (simp add: loading_then_ready_def)
  moreover from j assms have "\<not> int_gt_float (int j) (Finite m)" by simp
  ultimately have "poll_iteration (loading_then_ready n) a s (Finite m) cur (int j) lg =
                     Again cur (int j + 1) ?lg"
    by (simp add: poll_iteration_503)
  from loop_Again [OF this]
  have step: "is_running_loop (loading_then_ready n) a s (Finite m) cur (int j) lg =
                is_running_loop (loading_then_ready n) a s (Finite m) cur (int (Suc j)) ?lg"
    by (simp add: add.commute)
  have el: "elapsed ?lg = real (Suc j)"
    using Suc.prems(1) by (simp add: elapsed_after_sleep)
  have d: "d = n - Suc j" and le: "Suc j \<le> n"
    using Suc.hyps(2) j by simp_all
  have "is_running_loop (loading_then_ready n) a s (Finite m) cur (int (Suc j)) ?lg =
           Some (Inr True,
                 ?lg\<lparr>requests := requests ?lg @ replicate (n - Suc j) (Response 503) @ [Response 200],
                     sleeps := sleeps ?lg @ replicate (n - Suc j) 1\<rparr>)"
    by (rule Suc.hyps(1) [OF d el le])
  moreover have "n - j = Suc (n - Suc j)"
    using j by simp
  ultimately show ?case
    using step by simp
qed

lemma loading_loop_failed:
  assumes "m < real n - 1"
  shows "elapsed lg = real j \<Longrightarrow> j < n \<Longrightarrow>
         map_option fst (is_running_loop (loading_then_ready n) a s (Finite m) cur (int j) lg) =
           Some (Inr False)"
proof (induction "n - j" arbitrary: j lg rule: less_induct)
  case less
  let ?lg = "lg\<lparr>requests := requests lg @ [Response 503], sleeps := sleeps lg @ [1]\<rparr>"
  from less.prems
  have out: "loading_then_ready n (length (requests lg)) (elapsed lg) = Response 503"
    by (simp add: loading_then_ready_def)
  show ?case
  proof (cases "int_gt_float (int j) (Finite m)")
    case True
    with out have "poll_iteration (loading_then_ready n) a s (Finite m) cur (int j) lg =
                     Done (Inr False) (lg\<lparr>requests := requests lg @ [Response 503]\<rparr>)"
      by (simp add: poll_iteration_503)
    from loop_Done [OF this] show ?thesis
      by simp
  next
    case False
    with out have "poll_iteration (loading_then_ready n) a s (Finite m) cur (int j) lg =
                     Again cur (int j + 1) ?lg"
      by (simp add: poll_iteration_503)
    from loop_Again [OF this]
    have step: "is_running_loop (loading_then_ready n) a s (Finite m) cur (int j) lg =
                  is_running_loop (loading_then_ready n) a s (Finite m) cur (int (Suc j)) ?lg"
      by (simp add: add.commute)
    from False assms have "Suc j < n" by simp
    moreover have "elapsed ?lg = real (Suc j)"
      using less.prems(1) by (simp add: elapsed_after_sleep)
    moreover have "n - Suc j < n - j"
      using less.prems(2) by simp
    ultimately have "map_option fst
        (is_running_loop (loading_then_ready n) a s (Finite m) cur (int (Suc j)) ?lg) =
          Some (Inr False)"
      using less.hyps by blast
    with step show ?thesis by simp
  qed
qed




text \<open>With \<open>inf\<close> or NaN as the bound, an endpoint that always answers 503 is polled forever.\<close>

lemma loading_loop_forever:
  assumes "m = PosInf \<or> m = NaN"
  shows "is_running_loop always_loading a s m cur mlt lg = None"
proof (cases "is_running_loop always_loading a s m cur mlt lg")
  case None
  then show ?thesis .
next
  case (Some y)
  have "always_loading = always_loading \<longrightarrow> (m = PosInf \<or> m = NaN) \<longrightarrow> False"
  proof (rule is_running_loop.raw_induct
      [where P = "\<lambda>ep a s m cur mlt lg y. ep = always_loading \<longrightarrow> (m = PosInf \<or> m = NaN) \<longrightarrow> False",
       OF _ Some])
    fix loop ep a s m cur mlt lg y
    assume IH: "\<And>ep a s m cur mlt lg y. loop ep a s m cur mlt lg = Some y \<Longrightarrow>
             ep = always_loading \<longrightarrow> (m = PosInf \<or> m = NaN) \<longrightarrow> False"
      and eq: "(case poll_iteration ep a s m cur mlt lg of
                  Done r lg' \<Rightarrow> Some (r, lg')
                | Again cur' mlt' lg' \<Rightarrow> loop ep a s m cur' mlt' lg') = Some y"
    show "ep = always_loading \<longrightarrow> (m = PosInf \<or> m = NaN) \<longrightarrow> False"
    proof (intro impI)
      let ?lg = "lg\<lparr>requests := requests lg @ [Response 503], sleeps := sleeps lg @ [1]\<rparr>"
      assume ep: "ep = always_loading" and m: "m = PosInf \<or> m = NaN"
      from ep have "ep (length (requests lg)) (elapsed lg) = Response 503"
        by (simp add: always_loading_def)
      moreover from m have "\<not> int_gt_float mlt m"
        by auto
      ultimately have "poll_iteration ep a s m cur mlt lg = Again cur (mlt + 1) ?lg"
        by (simp add: poll_iteration_503)
      with eq have "loop ep a s m cur (mlt + 1) ?lg = Some y"
        by simp
      from IH [OF this] ep m show False
        by blast
    qed
  qed
  with assms show ?thesis
    by simp
qed

text \<open>How many requests the loop adds to the log, by outcome.\<close>

lemma polls_by_outcome:
  "length (requests lg) = refused_polls lg + loading_polls lg + final_polls lg"
proof -
  have split: "length rs = length (filter (\<lambda>out. out = ConnectionError) rs)
                  + length (filter (\<lambda>out. out = Response 503) rs)
                  + length (filter (\<lambda>out. out \<noteq> ConnectionError \<and> out \<noteq> Response 503) rs)"
    for rs :: "outcome list"
    by (induction rs) auto
  show ?thesis
    unfolding refused_polls_def loading_polls_def final_polls_def
    by (rule split)
qed

lemma polls_after_request:
  "refused_polls (lg\<lparr>requests := requests lg @ [out]\<rparr>) =
     refused_polls lg + (if out = ConnectionError then 1 else 0)"
  "loading_polls (lg\<lparr>requests := requests lg @ [out]\<rparr>) =
     loading_polls lg + (if out = Response 503 then 1 else 0)"
  "final_polls (lg\<lparr>requests := requests lg @ [out]\<rparr>) =
     final_polls lg + (if out \<noteq> ConnectionError \<and> out \<noteq> Response 503 then 1 else 0)"
  by (simp_all add: refused_polls_def loading_polls_def final_polls_def)

lemma polls_after_request_and_sleep:
  "refused_polls (lg\<lparr>requests := requests lg @ [out], sleeps := sl\<rparr>) =
     refused_polls lg + (if out = ConnectionError then 1 else 0)"
  "loading_polls (lg\<lparr>requests := requests lg @ [out], sleeps := sl\<rparr>) =
     loading_polls lg + (if out = Response 503 then 1 else 0)"
  "final_polls (lg\<lparr>requests := requests lg @ [out], sleeps := sl\<rparr>) =
     final_polls lg + (if out \<noteq> ConnectionError \<and> out \<noteq> Response 503 then 1 else 0)"
  by (simp_all add: refused_polls_def loading_polls_def final_polls_def)

text \<open>
  With a finite bound the loop returns: a pass that goes round again either adds one to
  \<open>cur_attempt\<close>, which stays at most \<open>max_connection_attempts\<close>, or adds one to
  \<open>model_loading_time\<close>, which was at most the bound. The same count bounds the
  requests of each kind.
\<close>

lemma loop_returns_bounded:
  "\<exists>r lg'. is_running_loop ep a s (Finite m) cur mlt lg = Some (r, lg') \<and>
     refused_polls lg' \<le> refused_polls lg + nat (a - cur) + 1 \<and>
     loading_polls lg' \<le> loading_polls lg + nat (\<lfloor>m\<rfloor> - mlt + 1) + 1 \<and>
     final_polls lg' \<le> final_polls lg + 1"
proof (induction "nat (a - cur) + nat (\<lfloor>m\<rfloor> - mlt + 1)" arbitrary: cur mlt lg rule: less_induct)
  case less
  show ?case
  proof (cases "poll_iteration ep a s (Finite m) cur mlt lg")
    case (Done r lg')
    from poll_iteration_Done [OF Done] loop_Done [OF Done] show ?thesis
      by (simp add: polls_after_request)
  next
    case (Again cur' mlt' lg1)
    from poll_iteration_Again [OF Again] show ?thesis
    proof (elim disjE conjE)
      assume c: "cur' = cur + 1" and le: "cur' \<le> a" and t: "mlt' = mlt"
        and lg1: "lg1 = lg\<lparr>requests := requests lg @ [ConnectionError], sleeps := sleeps lg @ [s]\<rparr>"
      from c le have dec: "nat (a - cur) = Suc (nat (a - cur'))"
        by simp
      then have "nat (a - cur') + nat (\<lfloor>m\<rfloor> - mlt' + 1) < nat (a - cur) + nat (\<lfloor>m\<rfloor> - mlt + 1)"
        using t by simp
      from less.hyps [OF this, of lg1] obtain r lg' where
        "is_running_loop ep a s (Finite m) cur' mlt' lg1 = Some (r, lg')"
        "refused_polls lg' \<le> refused_polls lg1 + nat (a - cur') + 1"
        "loading_polls lg' \<le> loading_polls lg1 + nat (\<lfloor>m\<rfloor> - mlt' + 1) + 1"
        "final_polls lg' \<le> final_polls lg1 + 1"
        by blast
      with dec t lg1 show ?thesis
        by (simp add: loop_Again [OF Again] polls_after_request_and_sleep)
    next
      assume c: "cur' = cur" and t: "mlt' = mlt + 1" and le: "\<not> int_gt_float mlt (Finite m)"
        and lg1: "lg1 = lg\<lparr>requests := requests lg @ [Response 503], sleeps := sleeps lg @ [1]\<rparr>"
      from le have "mlt \<le> \<lfloor>m\<rfloor>"
        by (simp add: le_floor_iff)
      with t have dec: "nat (\<lfloor>m\<rfloor> - mlt + 1) = Suc (nat (\<lfloor>m\<rfloor> - mlt' + 1))"
        by linarith
      then have "nat (a - cur') + nat (\<lfloor>m\<rfloor> - mlt' + 1) < nat (a - cur) + nat (\<lfloor>m\<rfloor> - mlt + 1)"
        using c by simp
      from less.hyps [OF this, of lg1] obtain r lg' where
        "is_running_loop ep a s (Finite m) cur' mlt' lg1 = Some (r, lg')"
        "refused_polls lg' \<le> refused_polls lg1 + nat (a - cur') + 1"
        "loading_polls lg' \<le> loading_polls lg1 + nat (\<lfloor>m\<rfloor> - mlt' + 1) + 1"
        "final_polls lg' \<le> final_polls lg1 + 1"
        by blast
      with dec c lg1 show ?thesis
        by (simp add: loop_Again [OF Again] polls_after_request_and_sleep)
    qed
  qed
qed

lemma is_running_returns_bounded:
  "\<exists>r lg. is_running ep h a s (Finite m) = Some (r, lg) \<and>
     refused_polls lg \<le> nat a + 1 \<and>
     loading_polls lg \<le> nat (\<lfloor>m\<rfloor> + 1) + 1 \<and>
     final_polls lg \<le> 1"
proof (cases "process h = None")
  case True
  then show ?thesis
    by (simp add: is_running_def empty_log_def refused_polls_def loading_polls_def
        final_polls_def)
next
  case False
  with loop_returns_bounded [of ep a s m 0 0 empty_log] show ?thesis
    by (simp add: is_running_def empty_log_def refused_polls_def loading_polls_def
        final_polls_def)
qed

subsection \<open>Claims\<close>

text \<open>
  C1. When \<open>start\<close> has spawned its process and the readiness check it then runs returns
  False, \<open>start\<close> raises \<open>ServerStartupError\<close>, and the handle and the operating system
  it leaves behind are the ones \<open>stop\<close> returned for the handle that owned the new
  process: the handle's process reference is None and the spawned child is no longer
  alive.
\<close>

theorem start_failed_readiness_stops:
  assumes "spawnable os (command h)"
    and "map_option fst (is_running ep (h\<lparr>process := Some (next_pid os)\<rparr>) 10 (1 / 100) (Finite 60))
           = Some (Inr False)"
  shows "\<exists>h' os' lg os1.
           start ep h os = Some (Inl ServerStartupError, h', os', lg) \<and>
           process h' = None \<and>
           next_pid os \<notin> set (live os') \<and>
           Popen (command h) os = Inr (next_pid os, os1) \<and>
           stop (h\<lparr>process := Some (next_pid os)\<rparr>) os1 = Inr (h', os')"
proof -
  from assms(2) obtain lg where
    "is_running ep (h\<lparr>process := Some (next_pid os)\<rparr>) 10 (1 / 100) (Finite 60) =
       Some (Inr False, lg)"
    by auto
  with assms(1) show ?thesis
    by (simp add: start_def Popen_def stop_def terminate_and_wait_def)
qed

theorem start_failed_readiness_stops_witness:
  "spawnable example_os (command example_handle) \<and>
   map_option fst (is_running always_broken (example_handle\<lparr>process := Some (next_pid example_os)\<rparr>)
                     10 (1 / 100) (Finite 60)) = Some (Inr False) \<and>
   (\<exists>h' os' lg os1.
      start always_broken example_handle example_os = Some (Inl ServerStartupError, h', os', lg) \<and>
      process h' = None \<and>
      next_pid example_os \<notin> set (live os') \<and>
      Popen (command example_handle) example_os = Inr (next_pid example_os, os1) \<and>
      stop (example_handle\<lparr>process := Some (next_pid example_os)\<rparr>) os1 = Inr (h', os'))"
proof -
  have sp: "spawnable example_os (command example_handle)"
    by (simp add: example_os_def)
  have rd: "map_option fst
              (is_running always_broken (example_handle\<lparr>process := Some (next_pid example_os)\<rparr>)
                 10 (1 / 100) (Finite 60)) = Some (Inr False)"
    by (simp add: is_running_broken)
  from sp rd start_failed_readiness_stops [OF sp rd] show ?thesis
    by blast
qed

text \<open>
  C2. On a handle that owns no process, \<open>stop\<close> does not return: the attribute access
  \<open>self.process.terminate()\<close> raises AttributeError. The second of two \<open>stop\<close> calls in
  a row therefore raises as well.
\<close>

theorem stop_without_process_raises:
  "stop (h\<lparr>process := None\<rparr>) os = Inl AttributeError \<and>
   (case stop (h\<lparr>process := Some pid\<rparr>) os of
      Inl e \<Rightarrow> False
    | Inr (h', os') \<Rightarrow> stop h' os' = Inl AttributeError)"
  by (simp add: stop_def)

text \<open>
  C3. The launch command is computed from the descriptor alone (the constructor reads
  nothing else): it is the executable path, \<open>-m\<close> and the model path when \<open>use_gpu\<close> is
  false, and that sequence followed by \<open>-ngl\<close>, \<open>1000\<close> when \<open>use_gpu\<close> is true,
  whatever the port.
\<close>

theorem command_of_descriptor:
  "command (LlamaServer_init repo model p False) = [repo, ''-m'', model] \<and>
   command (LlamaServer_init repo model p True) = [repo, ''-m'', model] @ [''-ngl'', ''1000'']"
  by (simp add: LlamaServer_init_def)

text \<open>
  C4. On a handle whose process reference is None, \<open>is_running\<close> returns False for all
  values of its three parameters and for every endpoint, and its log of requests is
  empty: no request is sent.
\<close>

theorem is_running_without_process:
  "is_running ep (h\<lparr>process := None\<rparr>) a s m = Some (Inr False, empty_log) \<and>
   map_option (\<lambda>r. requests (snd r)) (is_running ep (h\<lparr>process := None\<rparr>) a s m) = Some [] \<and>
   map_option (\<lambda>r. sleeps (snd r)) (is_running ep (h\<lparr>process := None\<rparr>) a s m) = Some []"
  by (simp add: is_running_def empty_log_def)

text \<open>
  C5. Against an endpoint that answers 503 while fewer than \<open>n\<close> seconds have passed
  and 200 afterwards, on a handle that owns a process: \<open>is_running\<close> returns True when
  \<open>max_wait_time_for_model_loading\<close> is at least \<open>n - 1\<close> (so in particular when it is
  greater than \<open>n\<close>), and False when \<open>n\<close> is positive and the bound is below \<open>n - 1\<close>;
  it raises in neither case. A pass that gets 503 returns False exactly when
  \<open>model_loading_time\<close> exceeds the bound, and otherwise sleeps one second once, adds
  one to \<open>model_loading_time\<close> and goes round again.
\<close>

theorem is_running_loading_then_ready:
  assumes "process h \<noteq> None"
  shows "(real n - 1 \<le> m \<longrightarrow>
            is_running (loading_then_ready n) h a s (Finite m) =
              Some (Inr True, \<lparr>requests = replicate n (Response 503) @ [Response 200],
                               sleeps = replicate n 1\<rparr>)) \<and>
         (0 < n \<and> m < real n - 1 \<longrightarrow>
            map_option fst (is_running (loading_then_ready n) h a s (Finite m)) = Some (Inr False)) \<and>
         (ep (length (requests lg)) (elapsed lg) = Response 503 \<longrightarrow>
            poll_iteration ep a s w cur mlt lg =
              (if int_gt_float mlt w
               then Done (Inr False) (lg\<lparr>requests := requests lg @ [Response 503]\<rparr>)
               else Again cur (mlt + 1)
                      (lg\<lparr>requests := requests lg @ [Response 503],
                         sleeps := sleeps lg @ [1]\<rparr>))) \<and>
         int_gt_float mlt (Finite m) = (of_int mlt > m)"
proof (intro conjI impI)
  assume "real n - 1 \<le> m"
  then have "is_running_loop (loading_then_ready n) a s (Finite m) 0 (int 0) empty_log =
           Some (Inr True,
            empty_log\<lparr>requests := requests empty_log @ replicate (n - 0) (Response 503) @ [Response 200],
               sleeps := sleeps empty_log @ replicate (n - 0) 1\<rparr>)"
    by (rule loading_loop_ready) (simp_all add: elapsed_def empty_log_def)
  with assms show "is_running (loading_then_ready n) h a s (Finite m) =
              Some (Inr True, \<lparr>requests = replicate n (Response 503) @ [Response 200],
                               sleeps = replicate n 1\<rparr>)"
    by (simp add: is_running_def empty_log_def)
next
  assume "0 < n \<and> m < real n - 1"
  then have short: "m < real n - 1" and pos: "0 < n"
    by simp_all
  have el: "elapsed empty_log = real 0"
    by (simp add: elapsed_def empty_log_def)
  have "map_option fst (is_running_loop (loading_then_ready n) a s (Finite m) 0 (int 0) empty_log)
          = Some (Inr False)"
    by (rule loading_loop_failed [OF short el pos])
  with assms
  show "map_option fst (is_running (loading_then_ready n) h a s (Finite m)) = Some (Inr False)"
    by (simp add: is_running_def)
next
  assume "ep (length (requests lg)) (elapsed lg) = Response 503"
  then show "poll_iteration ep a s w cur mlt lg =
              (if int_gt_float mlt w
               then Done (Inr False) (lg\<lparr>requests := requests lg @ [Response 503]\<rparr>)
               else Again cur (mlt + 1)
                      (lg\<lparr>requests := requests lg @ [Response 503],
                         sleeps := sleeps lg @ [1]\<rparr>))"
    by (rule poll_iteration_503)
next
  show "int_gt_float mlt (Finite m) = (of_int mlt > m)"
    by simp
qed

theorem is_running_loading_then_ready_witness:
  "process (example_handle\<lparr>process := Some 1\<rparr>) \<noteq> None \<and>
   real 3 - 1 \<le> (5 :: real) \<and>
   is_running (loading_then_ready 3) (example_handle\<lparr>process := Some 1\<rparr>) 10 (1 / 100) (Finite 5) =
     Some (Inr True, \<lparr>requests = [Response 503, Response 503, Response 503, Response 200],
                      sleeps = [1, 1, 1]\<rparr>) \<and>
   (0 < (3 :: nat) \<and> (1 :: real) < real 3 - 1) \<and>
   map_option fst
     (is_running (loading_then_ready 3) (example_handle\<lparr>process := Some 1\<rparr>) 10 (1 / 100) (Finite 1))
     = Some (Inr False) \<and>
   always_loading (length (requests empty_log)) (elapsed empty_log) = Response 503 \<and>
   poll_iteration always_loading 10 (1 / 100) (Finite 5) 0 0 empty_log =
     Again 0 1 \<lparr>requests = [Response 503], sleeps = [1]\<rparr>"
proof -
  have owns: "process (example_handle\<lparr>process := Some 1\<rparr>) \<noteq> None"
    by simp
  have out: "always_loading (length (requests empty_log)) (elapsed empty_log) = Response 503"
    by (simp add: always_loading_def)
  have three: "replicate 3 x = [x, x, x]" for x :: 'a
    by (simp add: numeral_3_eq_3)
  from is_running_loading_then_ready
         [OF owns, where n = 3 and m = 5 and a = 10 and s = "1 / 100" and ep = always_loading
            and lg = empty_log and cur = 0 and mlt = 0 and w = "Finite 5"]
       is_running_loading_then_ready
         [OF owns, where n = 3 and m = 1 and a = 10 and s = "1 / 100" and ep = always_loading
            and lg = empty_log and cur = 0 and mlt = 0 and w = "Finite 5"]
       owns out
  show ?thesis
    by (simp add: three empty_log_def)
qed

theorem is_running_short_wait_counterexample:
  "(2 :: real) < real 3 \<and>
   process (example_handle\<lparr>process := Some 1\<rparr>) \<noteq> None \<and>
   is_running (loading_then_ready 3) (example_handle\<lparr>process := Some 1\<rparr>) 10 (1 / 100) (Finite 2) =
     Some (Inr True, \<lparr>requests = [Response 503, Response 503, Response 503, Response 200],
                      sleeps = [1, 1, 1]\<rparr>)"
  by (simp add: is_running_def is_running_loop.simps poll_iteration_def Let_def
      loading_then_ready_def empty_log_def elapsed_def sleep_def model_loading_log_time_def)




text \<open>
  C7. A pass that goes round again sleeps exactly once, and which sleep depends on the
  branch: after a refused connection it is \<open>time.sleep(sleep_time_between_attempts)\<close>,
  after a 503 it is the one-second sleep of the 503 branch alone, whose \<open>continue\<close>
  skips the sleep at the end of the body. A pass that returns does not sleep.
\<close>

theorem sleep_of_a_pass:
  "(ep (length (requests lg)) (elapsed lg) = ConnectionError \<and> cur + 1 \<le> a \<and> 0 \<le> s \<longrightarrow>
      poll_iteration ep a s m cur mlt lg =
        Again (cur + 1) mlt
          (lg\<lparr>requests := requests lg @ [ConnectionError], sleeps := sleeps lg @ [s]\<rparr>)) \<and>
   (ep (length (requests lg)) (elapsed lg) = Response 503 \<and> \<not> int_gt_float mlt m \<longrightarrow>
      poll_iteration ep a s m cur mlt lg =
        Again cur (mlt + 1)
          (lg\<lparr>requests := requests lg @ [Response 503], sleeps := sleeps lg @ [1]\<rparr>)) \<and>
   (poll_iteration ep a s m cur mlt lg = Done r lg' \<longrightarrow> sleeps lg' = sleeps lg) \<and>
   (poll_iteration ep a s m cur mlt lg = Again cur' mlt' lg' \<longrightarrow>
      (ep (length (requests lg)) (elapsed lg) = ConnectionError \<and> sleeps lg' = sleeps lg @ [s]) \<or>
      (ep (length (requests lg)) (elapsed lg) = Response 503 \<and> sleeps lg' = sleeps lg @ [1])) \<and>
   (\<not> int_gt_float mlt (Finite w)) = (of_int mlt \<le> w)"
proof (intro conjI impI)
  assume "ep (length (requests lg)) (elapsed lg) = ConnectionError \<and> cur + 1 \<le> a \<and> 0 \<le> s"
  then show "poll_iteration ep a s m cur mlt lg =
        Again (cur + 1) mlt
          (lg\<lparr>requests := requests lg @ [ConnectionError], sleeps := sleeps lg @ [s]\<rparr>)"
    by (simp add: poll_iteration_refused)
next
  assume "ep (length (requests lg)) (elapsed lg) = Response 503 \<and> \<not> int_gt_float mlt m"
  then show "poll_iteration ep a s m cur mlt lg =
        Again cur (mlt + 1)
          (lg\<lparr>requests := requests lg @ [Response 503], sleeps := sleeps lg @ [1]\<rparr>)"
    by (simp add: poll_iteration_503)
next
  assume "poll_iteration ep a s m cur mlt lg = Done r lg'"
  from poll_iteration_Done [OF this] show "sleeps lg' = sleeps lg"
    by simp
next
  assume "poll_iteration ep a s m cur mlt lg = Again cur' mlt' lg'"
  from poll_iteration_Again [OF this]
  show "(ep (length (requests lg)) (elapsed lg) = ConnectionError \<and> sleeps lg' = sleeps lg @ [s]) \<or>
        (ep (length (requests lg)) (elapsed lg) = Response 503 \<and> sleeps lg' = sleeps lg @ [1])"
    by auto
next
  show "(\<not> int_gt_float mlt (Finite w)) = (of_int mlt \<le> w)"
    by auto
qed

theorem sleep_of_a_pass_witness:
  "(always_refused (length (requests empty_log)) (elapsed empty_log) = ConnectionError \<and>
    (0 :: int) + 1 \<le> 10 \<and> (0 :: real) \<le> 1 / 100) \<and>
   poll_iteration always_refused 10 (1 / 100) (Finite 60) 0 0 empty_log =
     Again 1 0 \<lparr>requests = [ConnectionError], sleeps = [1 / 100]\<rparr> \<and>
   (always_loading (length (requests empty_log)) (elapsed empty_log) = Response 503 \<and>
    \<not> int_gt_float 0 (Finite 60)) \<and>
   poll_iteration always_loading 10 (1 / 100) (Finite 60) 0 0 empty_log =
     Again 0 1 \<lparr>requests = [Response 503], sleeps = [1]\<rparr> \<and>
   poll_iteration always_broken 10 (1 / 100) (Finite 60) 0 0 empty_log =
     Done (Inr False) \<lparr>requests = [Response 500], sleeps = []\<rparr> \<and>
   sleeps \<lparr>requests = [Response 500], sleeps = []\<rparr> = sleeps empty_log"
proof -
  have refused: "always_refused (length (requests empty_log)) (elapsed empty_log) = ConnectionError"
    and loading: "always_loading (length (requests empty_log)) (elapsed empty_log) = Response 503"
    by (simp_all add: always_refused_def always_loading_def)
  have broken: "poll_iteration always_broken 10 (1 / 100) (Finite 60) 0 0 empty_log =
                  Done (Inr False) \<lparr>requests = [Response 500], sleeps = []\<rparr>"
    by (simp add: poll_iteration_def always_broken_def empty_log_def)
  from sleep_of_a_pass
         [where ep = always_refused and lg = empty_log and cur = 0 and a = 10
            and s = "1 / 100" and m = "Finite 60" and mlt = 0]
       sleep_of_a_pass
         [where ep = always_loading and lg = empty_log and cur = 0 and a = 10
            and s = "1 / 100" and m = "Finite 60" and mlt = 0]
       sleep_of_a_pass
         [where ep = always_broken and lg = empty_log and cur = 0 and a = 10
            and s = "1 / 100" and m = "Finite 60" and mlt = 0 and r = "Inr False"
            and lg' = "\<lparr>requests = [Response 500], sleeps = []\<rparr>"]
       refused loading broken
  show ?thesis
    by (simp add: empty_log_def)
qed

theorem loading_pass_skips_attempt_sleep_counterexample:
  "poll_iteration always_loading 10 (1 / 100) (Finite 60) 0 0 empty_log =
     Again 0 1 \<lparr>requests = [Response 503], sleeps = [1]\<rparr> \<and>
   (1 / 100 :: real) \<notin> set (sleeps \<lparr>requests = [Response 503], sleeps = [1]\<rparr>)"
  by (simp add: poll_iteration_def Let_def always_loading_def empty_log_def sleep_def
      model_loading_log_time_def)

text \<open>
  C8. When the selected section is a non-empty mapping: if \<open>llama_cpp_repo_path\<close> or
  \<open>model_path\<close> is missing, \<open>from_yaml\<close> raises (the constructor's TypeError); if both
  are there and every key names a field, it returns a configuration that holds the
  values of the mapping unchanged, of whatever type they are, with 8080 for an absent
  \<open>port\<close> and True for an absent \<open>use_gpu\<close>.
\<close>

theorem from_yaml_required_fields:
  assumes "descend data keys = Inr (YMap kvs)" and "kvs \<noteq> []"
  shows "(map_of kvs (YStr ''llama_cpp_repo_path'') = None \<or>
          map_of kvs (YStr ''model_path'') = None \<longrightarrow>
            from_yaml data (Some keys) = Inl TypeError) \<and>
         (list_all (\<lambda>(k, v). k \<in> set field_names) kvs \<and>
          map_of kvs (YStr ''llama_cpp_repo_path'') = Some repo \<and>
          map_of kvs (YStr ''model_path'') = Some model \<longrightarrow>
            from_yaml data (Some keys) =
              Inr (Some \<lparr>cfg_llama_cpp_repo_path = repo,
                         cfg_model_path = model,
                         cfg_port = (case map_of kvs (YStr ''port'') of
                                       None \<Rightarrow> YInt 8080 | Some p \<Rightarrow> p),
                         cfg_use_gpu = (case map_of kvs (YStr ''use_gpu'') of
                                          None \<Rightarrow> YBool True | Some g \<Rightarrow> g)\<rparr>))"
proof (intro conjI impI)
  assume "map_of kvs (YStr ''llama_cpp_repo_path'') = None \<or>
          map_of kvs (YStr ''model_path'') = None"
  then have "cls (YMap kvs) = Inl TypeError"
    by (auto split: option.splits)
  with assms show "from_yaml data (Some keys) = Inl TypeError"
    by (simp add: from_yaml_def)
next
  assume "list_all (\<lambda>(k, v). k \<in> set field_names) kvs \<and>
          map_of kvs (YStr ''llama_cpp_repo_path'') = Some repo \<and>
          map_of kvs (YStr ''model_path'') = Some model"
  then have "cls (YMap kvs) =
               Inr \<lparr>cfg_llama_cpp_repo_path = repo,
                    cfg_model_path = model,
                    cfg_port = (case map_of kvs (YStr ''port'') of
                                  None \<Rightarrow> YInt 8080 | Some p \<Rightarrow> p),
                    cfg_use_gpu = (case map_of kvs (YStr ''use_gpu'') of
                                     None \<Rightarrow> YBool True | Some g \<Rightarrow> g)\<rparr>"
    by simp
  with assms show "from_yaml data (Some keys) =
              Inr (Some \<lparr>cfg_llama_cpp_repo_path = repo,
                         cfg_model_path = model,
                         cfg_port = (case map_of kvs (YStr ''port'') of
                                       None \<Rightarrow> YInt 8080 | Some p \<Rightarrow> p),
                         cfg_use_gpu = (case map_of kvs (YStr ''use_gpu'') of
                                          None \<Rightarrow> YBool True | Some g \<Rightarrow> g)\<rparr>)"
    by (simp add: from_yaml_def)
qed

theorem from_yaml_required_fields_witness:
  "descend incomplete_document [''LlamaServer''] =
     Inr (YMap [(YStr ''llama_cpp_repo_path'', YStr ''/opt/llama.cpp''),
                (YStr ''port'', YInt 9000)]) \<and>
   from_yaml incomplete_document (Some [''LlamaServer'']) = Inl TypeError \<and>
   descend example_document [''LlamaServer''] =
     Inr (YMap [(YStr ''llama_cpp_repo_path'', YStr ''/opt/llama.cpp''),
                (YStr ''model_path'', YStr ''/models/model.gguf'')]) \<and>
   from_yaml example_document (Some [''LlamaServer'']) =
     Inr (Some \<lparr>cfg_llama_cpp_repo_path = YStr ''/opt/llama.cpp'',
                cfg_model_path = YStr ''/models/model.gguf'',
                cfg_port = YInt 8080,
                cfg_use_gpu = YBool True\<rparr>)"
proof -
  let ?incomplete = "[(YStr ''llama_cpp_repo_path'', YStr ''/opt/llama.cpp''),
                      (YStr ''port'', YInt 9000)]"
  let ?complete = "[(YStr ''llama_cpp_repo_path'', YStr ''/opt/llama.cpp''),
                    (YStr ''model_path'', YStr ''/models/model.gguf'')]"
  have d1: "descend incomplete_document [''LlamaServer''] = Inr (YMap ?incomplete)"
    by (simp add: incomplete_document_def)
  have d2: "descend example_document [''LlamaServer''] = Inr (YMap ?complete)"
    by (simp add: example_document_def)
  have n1: "?incomplete \<noteq> []" and n2: "?complete \<noteq> []"
    by simp_all
  have missing: "map_of ?incomplete (YStr ''llama_cpp_repo_path'') = None \<or>
                 map_of ?incomplete (YStr ''model_path'') = None"
    by simp
  have complete: "list_all (\<lambda>(k, v). k \<in> set field_names) ?complete \<and>
                  map_of ?complete (YStr ''llama_cpp_repo_path'') = Some (YStr ''/opt/llama.cpp'') \<and>
                  map_of ?complete (YStr ''model_path'') = Some (YStr ''/models/model.gguf'')"
    by (simp add: field_names_def)
  from from_yaml_required_fields [OF d1 n1] missing
  have r1: "from_yaml incomplete_document (Some [''LlamaServer'']) = Inl TypeError"
    by blast
  from from_yaml_required_fields
         [OF d2 n2, where repo = "YStr ''/opt/llama.cpp''" and model = "YStr ''/models/model.gguf''"]
       complete
  have r2: "from_yaml example_document (Some [''LlamaServer'']) =
     Inr (Some \<lparr>cfg_llama_cpp_repo_path = YStr ''/opt/llama.cpp'',
                cfg_model_path = YStr ''/models/model.gguf'',
                cfg_port = YInt 8080,
                cfg_use_gpu = YBool True\<rparr>)"
    by simp
  from d1 r1 d2 r2 show ?thesis
    by blast
qed

theorem from_yaml_wrong_type_counterexample:
  "from_yaml mistyped_document default_key_to_config =
     Inr (Some \<lparr>cfg_llama_cpp_repo_path = YInt 5,
                cfg_model_path = YSeq [],
                cfg_port = YInt 8080,
                cfg_use_gpu = YBool True\<rparr>)"
  by (simp add: from_yaml_def mistyped_document_def default_key_to_config_def field_names_def)



text \<open>
  C10. With a finite \<open>max_wait_time_for_model_loading\<close>, \<open>is_running\<close> returns for every
  endpoint, every handle and every \<open>max_connection_attempts\<close>: a pass that goes round
  again either adds one to \<open>cur_attempt\<close>, which stays at most
  \<open>max_connection_attempts\<close>, or adds one to \<open>model_loading_time\<close>, which was at most
  the bound. A call sends at most \<open>max (max_connection_attempts) 0 + 1\<close> requests that
  are refused, at most \<open>max (floor max_wait_time_for_model_loading + 1) 0 + 1\<close> requests
  answered 503, and at most one request with any other outcome; for bounds that are not
  negative these are \<open>max_connection_attempts + 1\<close> and
  \<open>floor max_wait_time_for_model_loading + 2\<close>.
\<close>

theorem is_running_poll_bounds:
  "(\<exists>r lg. is_running ep h a s (Finite m) = Some (r, lg) \<and>
      refused_polls lg \<le> nat a + 1 \<and>
      loading_polls lg \<le> nat (\<lfloor>m\<rfloor> + 1) + 1 \<and>
      final_polls lg \<le> 1 \<and>
      length (requests lg) \<le> (nat a + 1) + (nat (\<lfloor>m\<rfloor> + 1) + 1) + 1) \<and>
   (0 \<le> a \<and> 0 \<le> m \<longrightarrow>
      (\<exists>r lg. is_running ep h a s (Finite m) = Some (r, lg) \<and>
         int (refused_polls lg) \<le> a + 1 \<and>
         int (loading_polls lg) \<le> \<lfloor>m\<rfloor> + 2 \<and>
         final_polls lg \<le> 1 \<and>
         int (length (requests lg)) \<le> (a + 1) + (\<lfloor>m\<rfloor> + 2) + 1))"
proof -
  from is_running_returns_bounded [of ep h a s m] obtain r lg where
    ret: "is_running ep h a s (Finite m) = Some (r, lg)"
    and rf: "refused_polls lg \<le> nat a + 1"
    and ld: "loading_polls lg \<le> nat (\<lfloor>m\<rfloor> + 1) + 1"
    and fn: "final_polls lg \<le> 1"
    by blast
  from rf ld fn polls_by_outcome [of lg]
  have total: "length (requests lg) \<le> (nat a + 1) + (nat (\<lfloor>m\<rfloor> + 1) + 1) + 1"
    by linarith
  have claimed: "int (refused_polls lg) \<le> a + 1 \<and> int (loading_polls lg) \<le> \<lfloor>m\<rfloor> + 2 \<and>
                 int (length (requests lg)) \<le> (a + 1) + (\<lfloor>m\<rfloor> + 2) + 1"
    if "0 \<le> a \<and> 0 \<le> m"
  proof -
    from that have "0 \<le> a" and "0 \<le> \<lfloor>m\<rfloor>"
      by simp_all
    with rf ld total show ?thesis
      by linarith
  qed
  from ret rf ld fn total claimed show ?thesis
    by blast
qed

theorem is_running_poll_bounds_witness:
  "((0 :: int) \<le> 10 \<and> (0 :: real) \<le> 60) \<and>
   is_running slow_start (example_handle\<lparr>process := Some 1\<rparr>) 10 (1 / 100) (Finite 60) =
     Some (Inr True,
           \<lparr>requests = [ConnectionError, ConnectionError, Response 503, Response 503, Response 200],
            sleeps = [1 / 100, 1 / 100, 1, 1]\<rparr>) \<and>
   (\<exists>r lg. is_running slow_start (example_handle\<lparr>process := Some 1\<rparr>) 10 (1 / 100) (Finite 60)
              = Some (r, lg) \<and>
      int (refused_polls lg) \<le> 10 + 1 \<and>
      int (loading_polls lg) \<le> \<lfloor>60 :: real\<rfloor> + 2 \<and>
      final_polls lg \<le> 1 \<and>
      int (length (requests lg)) \<le> (10 + 1) + (\<lfloor>60 :: real\<rfloor> + 2) + 1)"
proof -
  have bounds: "(0 :: int) \<le> 10 \<and> (0 :: real) \<le> 60"
    by simp
  have run: "is_running slow_start (example_handle\<lparr>process := Some 1\<rparr>) 10 (1 / 100) (Finite 60) =
     Some (Inr True,
           \<lparr>requests = [ConnectionError, ConnectionError, Response 503, Response 503, Response 200],
            sleeps = [1 / 100, 1 / 100, 1, 1]\<rparr>)"
    by (simp add: is_running_def is_running_loop.simps poll_iteration_def Let_def
        slow_start_def empty_log_def elapsed_def sleep_def model_loading_log_time_def)
  from is_running_poll_bounds
         [of slow_start "example_handle\<lparr>process := Some 1\<rparr>" 10 "1 / 100" 60]
       bounds run
  show ?thesis
    by blast
qed

theorem is_running_unbounded_counterexample:
  "process (example_handle\<lparr>process := Some 1\<rparr>) \<noteq> None \<and>
   is_running always_refused (example_handle\<lparr>process := Some 1\<rparr>) (- 1) (1 / 100) (Finite (- 5)) =
     Some (Inr False, \<lparr>requests = [ConnectionError], sleeps = []\<rparr>) \<and>
   \<not> int (refused_polls \<lparr>requests = [ConnectionError], sleeps = []\<rparr>) \<le> - 1 + 1 \<and>
   is_running always_loading (example_handle\<lparr>process := Some 1\<rparr>) 10 (1 / 100) PosInf = None \<and>
   is_running always_loading (example_handle\<lparr>process := Some 1\<rparr>) 10 (1 / 100) NaN = None"
proof -
  have "is_running always_refused (example_handle\<lparr>process := Some 1\<rparr>) (- 1) (1 / 100)
          (Finite (- 5)) =
        Some (Inr False, \<lparr>requests = [ConnectionError], sleeps = []\<rparr>)"
    by (simp add: is_running_def is_running_loop.simps poll_iteration_def Let_def
        always_refused_def empty_log_def elapsed_def)
  moreover have "\<not> int (refused_polls \<lparr>requests = [ConnectionError], sleeps = []\<rparr>) \<le> - 1 + 1"
    by (simp add: refused_polls_def)
  moreover have "is_running always_loading (example_handle\<lparr>process := Some 1\<rparr>) 10 (1 / 100) m
                   = None" if "m = PosInf \<or> m = NaN" for m
    using that by (simp add: is_running_def loading_loop_forever)
  ultimately show ?thesis
    by simp
qed

end
